theory Spec2Isabelle
  imports Complex_Main
begin

section \<open>Backpropagation training of the pine network (training.py)\<close>

text \<open>
  The module \<^verbatim>\<open>pine/training.py\<close> holds the class \<^verbatim>\<open>Backpropagation\<close>, three
  activation-function classes and the function \<^verbatim>\<open>parallel_train\<close>. The network, layer
  and neuron classes live in another module; only the attributes the trainer touches
  are modelled, and the forward pass \<^verbatim>\<open>network.compute_network_output\<close> is a
  parameter of every definition that calls it.

  Python floats are modelled as real numbers: rounding is not part of the model. The one
  floating-point effect the source handles itself, the \<^verbatim>\<open>OverflowError\<close> of
  \<^verbatim>\<open>math.exp\<close>, is modelled (see \<open>math_exp\<close>).

  Every exception of the source is a value of \<open>error\<close>, and a function that can raise
  returns \<open>error + 'a\<close>, with \<open>Inl\<close> for the exception.
\<close>

subsection \<open>Exceptions\<close>

datatype error =
    IndexError string      \<comment> \<open>list index out of range; the string names the list\<close>
  | UnboundLocalError      \<comment> \<open>a local variable read before it was assigned\<close>
  | ZeroDivisionError
  | OverflowError          \<comment> \<open>raised by \<^verbatim>\<open>math.exp\<close>\<close>
  | CollaboratorError      \<comment> \<open>whatever the forward pass raises\<close>

subsection \<open>Activation functions\<close>

datatype activation = Logistic | Tanh | Linear

text \<open>The \<^verbatim>\<open>name\<close> attribute each constructor sets.\<close>

fun name :: "activation \<Rightarrow> string" where
  "name Logistic = ''Logistic''"
| "name Tanh = ''Tanh''"
| "name Linear = ''Linear''"

text \<open>The three \<^verbatim>\<open>derivative\<close> methods; the argument is an activated value.\<close>

fun derivative :: "activation \<Rightarrow> real \<Rightarrow> real" where
  "derivative Logistic fx = fx * (1 - fx)"
| "derivative Tanh fx = (1 - fx) * (1 + fx)"
| "derivative Linear fx = 1"

text \<open>
  \<^verbatim>\<open>math.exp\<close> raises \<^verbatim>\<open>OverflowError\<close> when its result exceeds the largest
  double, \<^verbatim>\<open>(2 - 2**-52) * 2**1023\<close>. A result too small for a double is not an
  error in Python: \<^verbatim>\<open>math.exp\<close> returns \<^verbatim>\<open>0.0\<close> there.
\<close>

definition DBL_MAX :: real where
  "DBL_MAX = (2 - 1 / 2 ^ 52) * 2 ^ 1023"

definition math_exp :: "real \<Rightarrow> error + real" where
  "math_exp y = (if exp y > DBL_MAX then Inl OverflowError else Inr (exp y))"

text \<open>
  \<^verbatim>\<open>LogisticActivationFunction.activate\<close> on a float: the \<^verbatim>\<open>try\<close> block, and the
  handler of \<^verbatim>\<open>OverflowError\<close> with its two bounds. (An int too large for a float
  makes the product \<^verbatim>\<open>-1.0*input_value\<close> raise; the trainer passes floats, and that
  case is not modelled.)
\<close>

definition LogisticActivationFunction_activate :: "real \<Rightarrow> real" where
  "LogisticActivationFunction_activate input_value =
     (case math_exp (- 1 * input_value) of
        Inr e \<Rightarrow> 1 / (1 + e)
      | Inl _ \<Rightarrow> (if input_value < 0 then 0.0000000000001 else 0.9999999999999))"

subsection \<open>The network as the trainer sees it\<close>

text \<open>
  A neuron's weight vector is a Python list that the trainer both mutates in place and
  stores, by reference, in \<^verbatim>\<open>this_layer_weights\<close>. So weight vectors live in a store,
  and a neuron holds the address of its vector. The other attributes are plain values:
  neuron and layer objects are assumed not to be shared between two places of a network.
\<close>

type_synonym addr = nat

type_synonym store = "addr \<Rightarrow> real list"

record neuron =
  weights :: addr
  threshold :: real
  local_output :: real
  inputs :: "real list"

record layer =
  neurons :: "neuron list"
  activation_function :: activation

record network =
  layers :: "layer list"
  store :: store

text \<open>
  A \<^verbatim>\<open>Backpropagation\<close> object. The attribute \<^verbatim>\<open>iterations\<close> does not exist
  until \<^verbatim>\<open>train\<close> assigns it.
\<close>

record trainer =
  learning_rate :: real
  momentum_coef :: real
  iterations :: "int option"

text \<open>A training example: the target output vector (index 0), the input vector (index 1).\<close>

type_synonym example = "real list \<times> real list"

text \<open>
  The forward pass \<^verbatim>\<open>network.compute_network_output(input_vector)\<close> mutates the
  network (it caches \<^verbatim>\<open>local_output\<close> and \<^verbatim>\<open>inputs\<close> in every neuron); it is not
  part of this module. \<open>None\<close> stands for any exception it raises.
\<close>

type_synonym forward = "network \<Rightarrow> real list \<Rightarrow> network option"

subsection \<open>Backpropagation.train\<close>

text \<open>The constants of the unsupervised (sparse autoencoder) mode.\<close>

definition rho :: real where
  "rho = 0.05"

definition beta :: real where
  "beta = 0.2"

text \<open>
  The loop over \<^verbatim>\<open>zip(next_layer_deltas, next_layer_weights)\<close> that accumulates
  \<^verbatim>\<open>sum_value\<close>; \<^verbatim>\<open>weights[j]\<close> reads the store as it is now.
\<close>

fun sum_value_loop :: "store \<Rightarrow> nat \<Rightarrow> (real \<times> addr) list \<Rightarrow> real \<Rightarrow> error + real" where
  "sum_value_loop st j [] sum_value = Inr sum_value"
| "sum_value_loop st j ((next_delta, w) # rest) sum_value =
     (if j < length (st w)
      then sum_value_loop st j rest (sum_value + st w ! j * next_delta)
      else Inl (IndexError ''weights''))"

text \<open>The delta of the neuron at index \<open>j\<close> (lines 91 to 115).\<close>

definition neuron_delta ::
  "bool \<Rightarrow> activation \<Rightarrow> real list \<Rightarrow> real list \<Rightarrow> addr list \<Rightarrow> store \<Rightarrow> nat \<Rightarrow> neuron
     \<Rightarrow> error + real" where
  "neuron_delta isOutputLayer af target_output_vector next_layer_deltas next_layer_weights st j n =
     (if isOutputLayer then
        (if j < length target_output_vector then
           (if name af = ''Logistic''
            then Inr (local_output n - target_output_vector ! j)
            else Inr ((local_output n - target_output_vector ! j) * derivative af (local_output n)))
         else Inl (IndexError ''target_output_vector''))
      else
        (case sum_value_loop st j (zip next_layer_deltas next_layer_weights) 0 of
           Inl e \<Rightarrow> Inl e
         | Inr sum_value \<Rightarrow> Inr (derivative af (local_output n) * sum_value)))"

text \<open>
  The loop \<^verbatim>\<open>for ij, input_ij in enumerate(neuron.inputs)\<close> on the list
  \<^verbatim>\<open>neuron.weights\<close>: an input without a weight raises.
\<close>

fun update_weights :: "real \<Rightarrow> real \<Rightarrow> nat \<Rightarrow> real list \<Rightarrow> real list \<Rightarrow> error + real list" where
  "update_weights lr delta ij [] ws = Inr ws"
| "update_weights lr delta ij (input_ij # rest) ws =
     (if ij < length ws
      then update_weights lr delta (Suc ij) rest (ws[ij := ws ! ij - lr * (delta * input_ij)])
      else Inl (IndexError ''neuron.weights''))"

text \<open>
  What the trainer mutates while it walks one layer: the store of weight vectors, the
  rho estimates, and the two accumulators of the layer.
\<close>

record pass =
  heap :: store
  rho_estimates :: "real list"
  this_layer_deltas :: "real list"
  this_layer_weights :: "addr list"

text \<open>The body of the loop over the neurons of a layer (lines 88 to 152).\<close>

definition train_neuron ::
  "real \<Rightarrow> bool \<Rightarrow> bool \<Rightarrow> activation \<Rightarrow> real list \<Rightarrow> real list \<Rightarrow> addr list \<Rightarrow> nat
     \<Rightarrow> neuron \<Rightarrow> pass \<Rightarrow> error + (neuron \<times> pass)" where
  "train_neuron lr unsupervised isOutputLayer af target_output_vector next_layer_deltas
       next_layer_weights j n p =
     (case neuron_delta isOutputLayer af target_output_vector next_layer_deltas
             next_layer_weights (heap p) j n of
        Inl e \<Rightarrow> Inl e
      | Inr delta \<Rightarrow>
          (case update_weights lr delta 0 (inputs n) (heap p (weights n)) of
             Inl e \<Rightarrow> Inl e
           | Inr ws \<Rightarrow>
               (let n1 = n\<lparr>threshold := threshold n - lr * (delta * 1)\<rparr>;
                    p1 = p\<lparr>heap := (heap p)(weights n := ws),
                           this_layer_deltas := this_layer_deltas p @ [delta],
                           this_layer_weights := this_layer_weights p @ [weights n]\<rparr>
                in if unsupervised \<and> \<not> isOutputLayer then
                     (if j < length (rho_estimates p) then
                        (let r = (rho_estimates p)
                                   [j := 0.999 * rho_estimates p ! j + 0.001 * local_output n]
                         in Inr (n1\<lparr>threshold := threshold n1 - lr * beta * (r ! j - rho)\<rparr>,
                                 p1\<lparr>rho_estimates := r\<rparr>))
                      else Inl (IndexError ''rho_estimates''))
                   else Inr (n1, p1))))"

text \<open>The loop \<^verbatim>\<open>for j, neuron in enumerate(layer.neurons)\<close>.\<close>

fun train_neurons ::
  "real \<Rightarrow> bool \<Rightarrow> bool \<Rightarrow> activation \<Rightarrow> real list \<Rightarrow> real list \<Rightarrow> addr list \<Rightarrow> nat
     \<Rightarrow> neuron list \<Rightarrow> pass \<Rightarrow> error + (neuron list \<times> pass)" where
  "train_neurons lr u isOut af t nds nws j [] p = Inr ([], p)"
| "train_neurons lr u isOut af t nds nws j (n # ns) p =
     (case train_neuron lr u isOut af t nds nws j n p of
        Inl e \<Rightarrow> Inl e
      | Inr (n', p') \<Rightarrow>
          (case train_neurons lr u isOut af t nds nws (Suc j) ns p' of
             Inl e \<Rightarrow> Inl e
           | Inr (ns', p'') \<Rightarrow> Inr (n' # ns', p'')))"

text \<open>
  The loop \<^verbatim>\<open>for layer in reversed(network.layers)\<close>. The layers come in backward
  order (output layer first) and are returned in that order; \<open>isOut\<close>, \<open>nds\<close> and \<open>nws\<close>
  are \<^verbatim>\<open>isOutputLayer\<close>, \<^verbatim>\<open>next_layer_deltas\<close> and \<^verbatim>\<open>next_layer_weights\<close>.
\<close>

fun backward_layers ::
  "real \<Rightarrow> bool \<Rightarrow> real list \<Rightarrow> bool \<Rightarrow> real list \<Rightarrow> addr list \<Rightarrow> layer list \<Rightarrow> store
     \<Rightarrow> real list \<Rightarrow> error + (layer list \<times> store \<times> real list)" where
  "backward_layers lr u t isOut nds nws [] st rhos = Inr ([], st, rhos)"
| "backward_layers lr u t isOut nds nws (l # ls) st rhos =
     (case train_neurons lr u isOut (activation_function l) t nds nws 0 (neurons l)
             \<lparr>heap = st, rho_estimates = rhos, this_layer_deltas = [], this_layer_weights = []\<rparr> of
        Inl e \<Rightarrow> Inl e
      | Inr (ns', p) \<Rightarrow>
          (case backward_layers lr u t False (this_layer_deltas p) (this_layer_weights p) ls
                  (heap p) (rho_estimates p) of
             Inl e \<Rightarrow> Inl e
           | Inr (ls', st', rhos') \<Rightarrow> Inr (l\<lparr>neurons := ns'\<rparr> # ls', st', rhos')))"

text \<open>One training example: the forward pass, then the backward pass (lines 71 to 158).\<close>

definition train_example ::
  "forward \<Rightarrow> real \<Rightarrow> bool \<Rightarrow> network \<times> real list \<Rightarrow> example \<Rightarrow> error + (network \<times> real list)" where
  "train_example compute_network_output lr u s training_example =
     (case compute_network_output (fst s) (snd training_example) of
        None \<Rightarrow> Inl CollaboratorError
      | Some net \<Rightarrow>
          (case backward_layers lr u (fst training_example) True [] [] (rev (layers net))
                  (store net) (snd s) of
             Inl e \<Rightarrow> Inl e
           | Inr (ls, st, rhos) \<Rightarrow> Inr (net\<lparr>layers := rev ls, store := st\<rparr>, rhos)))"

text \<open>The loop \<^verbatim>\<open>for training_example in training_examples\<close>.\<close>

fun train_examples ::
  "forward \<Rightarrow> real \<Rightarrow> bool \<Rightarrow> example list \<Rightarrow> network \<times> real list \<Rightarrow> error + (network \<times> real list)" where
  "train_examples fwd lr u [] s = Inr s"
| "train_examples fwd lr u (ex # exs) s =
     (case train_example fwd lr u s ex of
        Inl e \<Rightarrow> Inl e
      | Inr s' \<Rightarrow> train_examples fwd lr u exs s')"

text \<open>The loop \<^verbatim>\<open>for iteration_counter in range(iterations)\<close>, by the passes left.\<close>

fun train_iterations ::
  "forward \<Rightarrow> real \<Rightarrow> bool \<Rightarrow> example list \<Rightarrow> nat \<Rightarrow> network \<times> real list \<Rightarrow> error + (network \<times> real list)" where
  "train_iterations fwd lr u exs 0 s = Inr s"
| "train_iterations fwd lr u exs (Suc k) s =
     (case train_examples fwd lr u exs s of
        Inl e \<Rightarrow> Inl e
      | Inr s' \<Rightarrow> train_iterations fwd lr u exs k s')"

text \<open>
  The allocation \<^verbatim>\<open>[0] * len(network.layers[0].neurons)\<close> of the unsupervised mode.
  A supervised call never reads the list; it is empty there.
\<close>

definition init_rho_estimates :: "bool \<Rightarrow> network \<Rightarrow> error + real list" where
  "init_rho_estimates unsupervised net =
     (if unsupervised then
        (if 0 < length (layers net)
         then Inr (replicate (length (neurons (layers net ! 0))) 0)
         else Inl (IndexError ''network.layers''))
      else Inr [])"

text \<open>
  \<^verbatim>\<open>Backpropagation.train\<close>. The last statement reads \<^verbatim>\<open>iteration_counter\<close>, which
  \<^verbatim>\<open>range(iterations)\<close> leaves unassigned when it is empty and at
  \<^verbatim>\<open>iterations - 1\<close> otherwise.
\<close>

definition train ::
  "forward \<Rightarrow> trainer \<Rightarrow> network \<Rightarrow> example list \<Rightarrow> int \<Rightarrow> bool \<Rightarrow> error + (network \<times> trainer)" where
  "train compute_network_output self net training_examples n unsupervised =
     (case init_rho_estimates unsupervised net of
        Inl e \<Rightarrow> Inl e
      | Inr rhos \<Rightarrow>
          (case train_iterations compute_network_output (learning_rate self) unsupervised
                  training_examples (nat n) (net, rhos) of
             Inl e \<Rightarrow> Inl e
           | Inr s \<Rightarrow>
               (if 0 < n
                then Inr (fst s, self\<lparr>iterations := Some (n - 1)\<rparr>)
                else Inl UnboundLocalError)))"

subsection \<open>parallel_train\<close>

text \<open>
  Python's slice \<^verbatim>\<open>xs[i:j]\<close>: a negative bound counts from the end, and both bounds
  are clamped to the list.
\<close>

definition py_slice :: "'a list \<Rightarrow> int \<Rightarrow> int \<Rightarrow> 'a list" where
  "py_slice xs i j =
     (let n = int (length xs);
          a = (if i < 0 then max 0 (i + n) else min i n);
          b = (if j < 0 then max 0 (j + n) else min j n)
      in take (nat (b - a)) (drop (nat a) xs))"

text \<open>
  The number of processes after the two adjustments at the head of
  \<^verbatim>\<open>parallel_train\<close>; \<open>cpu_count\<close> is what \<^verbatim>\<open>multiprocessing.cpu_count()\<close> returns.
\<close>

definition effective_num_processes :: "int \<Rightarrow> int option \<Rightarrow> nat \<Rightarrow> int" where
  "effective_num_processes cpu_count num_processes len =
     (let np = (case num_processes of None \<Rightarrow> cpu_count | Some k \<Rightarrow> k)
      in if np > int len then int len else np)"

text \<open>
  \<^verbatim>\<open>int(len(training_examples)/num_processes)\<close> for a divisor other than zero: the
  quotient is truncated towards zero.
\<close>

definition chunk_amount :: "nat \<Rightarrow> int \<Rightarrow> int" where
  "chunk_amount len np = (if np < 0 then - (int len div (- np)) else int len div np)"

text \<open>
  \<^verbatim>\<open>_parallel_train_worker\<close>: it trains the network it is given, and puts that
  network on the queue when asked to. The queue is the list of the networks put on it.
\<close>

definition parallel_train_worker ::
  "forward \<Rightarrow> network \<Rightarrow> trainer \<Rightarrow> example list \<Rightarrow> int \<Rightarrow> network list \<Rightarrow> bool \<Rightarrow> bool
     \<Rightarrow> error + (network \<times> trainer \<times> network list)" where
  "parallel_train_worker fwd net tr training_examples n results_queue return_results_on_queue
       unsupervised =
     (case train fwd tr net training_examples n unsupervised of
        Inl e \<Rightarrow> Inl e
      | Inr (net', tr') \<Rightarrow>
          Inr (net', tr',
               if return_results_on_queue then results_queue @ [net'] else results_queue))"

text \<open>
  \<^verbatim>\<open>parallel_train\<close> up to the merge (lines 299 to 351). A spawned process works
  on its own copy of every argument, so all that reaches the orchestrator is what the
  process puts on the queue; a process whose training raises dies and puts nothing. The
  orchestrator itself calls the worker on \<^verbatim>\<open>network\<close>, the object it was given. It then
  takes \<^verbatim>\<open>num_processes - 1\<close> networks from the queue, and blocks for ever when fewer
  arrive: that outcome is \<open>None\<close>. The queue is read here in the order of the process
  numbers; the order of arrival is not modelled. The result is the orchestrator's
  network at the start of the merge, its trainer, and \<^verbatim>\<open>trained_networks\<close>.
\<close>

definition parallel_train_workers ::
  "forward \<Rightarrow> int \<Rightarrow> network \<Rightarrow> trainer \<Rightarrow> example list \<Rightarrow> int \<Rightarrow> bool \<Rightarrow> int option
     \<Rightarrow> (error + (network \<times> trainer \<times> network list)) option" where
  "parallel_train_workers fwd cpu_count net tr training_examples n unsupervised num_processes =
     (let np = effective_num_processes cpu_count num_processes (length training_examples)
      in if np = 0 then Some (Inl ZeroDivisionError)
         else
           (let chunk = chunk_amount (length training_examples) np;
                jobs = map (\<lambda>process_num.
                              parallel_train_worker fwd net tr
                                (py_slice training_examples (int process_num * chunk)
                                   (int process_num * chunk + chunk))
                                n [] True unsupervised)
                         [0..<nat (np - 1)];
                start_index = (np - 1) * chunk
            in case parallel_train_worker fwd net tr
                      (py_slice training_examples start_index (start_index + chunk))
                      n [] False unsupervised of
                 Inl e \<Rightarrow> Some (Inl e)
               | Inr (master, tr', _) \<Rightarrow>
                   (if list_ex isl jobs then None
                    else Some (Inr (master, tr',
                           concat (map (\<lambda>r. case r of Inl _ \<Rightarrow> [] | Inr (_, _, q) \<Rightarrow> q) jobs))))))"

text \<open>The neuron \<^verbatim>\<open>trained_network.layers[l].neurons[j]\<close>.\<close>

definition trained_neuron :: "network \<Rightarrow> nat \<Rightarrow> nat \<Rightarrow> error + neuron" where
  "trained_neuron trained_network l j =
     (if l < length (layers trained_network) then
        (if j < length (neurons (layers trained_network ! l))
         then Inr (neurons (layers trained_network ! l) ! j)
         else Inl (IndexError ''trained_network.layers[l].neurons''))
      else Inl (IndexError ''trained_network.layers''))"

text \<open>The two inner loops over \<^verbatim>\<open>trained_networks\<close> (lines 360, 361 and 365, 366).\<close>

fun weight_sum_loop :: "network list \<Rightarrow> nat \<Rightarrow> nat \<Rightarrow> nat \<Rightarrow> real \<Rightarrow> error + real" where
  "weight_sum_loop [] l j ij weight_sum = Inr weight_sum"
| "weight_sum_loop (trained_network # rest) l j ij weight_sum =
     (case trained_neuron trained_network l j of
        Inl e \<Rightarrow> Inl e
      | Inr tn \<Rightarrow>
          (if ij < length (store trained_network (weights tn))
           then weight_sum_loop rest l j ij (weight_sum + store trained_network (weights tn) ! ij)
           else Inl (IndexError ''trained_network.layers[l].neurons[j].weights'')))"

fun threshold_sum_loop :: "network list \<Rightarrow> nat \<Rightarrow> nat \<Rightarrow> real \<Rightarrow> error + real" where
  "threshold_sum_loop [] l j threshold_sum = Inr threshold_sum"
| "threshold_sum_loop (trained_network # rest) l j threshold_sum =
     (case trained_neuron trained_network l j of
        Inl e \<Rightarrow> Inl e
      | Inr tn \<Rightarrow> threshold_sum_loop rest l j (threshold_sum + threshold tn))"

text \<open>
  The loop \<^verbatim>\<open>for ij in range(len(neuron.weights))\<close> on the weight vector at address
  \<open>a\<close>; the list of indices is fixed when the loop starts.
\<close>

fun average_weights ::
  "network list \<Rightarrow> nat \<Rightarrow> nat \<Rightarrow> nat list \<Rightarrow> addr \<Rightarrow> store \<Rightarrow> error + store" where
  "average_weights trained_networks l j [] a st = Inr st"
| "average_weights trained_networks l j (ij # ijs) a st =
     (case weight_sum_loop trained_networks l j ij 0 of
        Inl e \<Rightarrow> Inl e
      | Inr weight_sum \<Rightarrow>
          average_weights trained_networks l j ijs a
            (st(a := (st a)[ij := (st a ! ij + weight_sum)
                                   / (real (length trained_networks) + 1)])))"

text \<open>The loops over the neurons of a layer and over the layers (lines 355 to 367).\<close>

fun merge_neurons ::
  "network list \<Rightarrow> nat \<Rightarrow> nat \<Rightarrow> neuron list \<Rightarrow> store \<Rightarrow> error + (neuron list \<times> store)" where
  "merge_neurons trained_networks l j [] st = Inr ([], st)"
| "merge_neurons trained_networks l j (n # ns) st =
     (case average_weights trained_networks l j [0..<length (st (weights n))] (weights n) st of
        Inl e \<Rightarrow> Inl e
      | Inr st1 \<Rightarrow>
          (case threshold_sum_loop trained_networks l j 0 of
             Inl e \<Rightarrow> Inl e
           | Inr threshold_sum \<Rightarrow>
               (case merge_neurons trained_networks l (Suc j) ns st1 of
                  Inl e \<Rightarrow> Inl e
                | Inr (ns', st2) \<Rightarrow>
                    Inr (n\<lparr>threshold := (threshold n + threshold_sum)
                                          / (real (length trained_networks) + 1)\<rparr> # ns',
                         st2))))"

fun merge_layers ::
  "network list \<Rightarrow> nat \<Rightarrow> layer list \<Rightarrow> store \<Rightarrow> error + (layer list \<times> store)" where
  "merge_layers trained_networks l [] st = Inr ([], st)"
| "merge_layers trained_networks l (ly # lys) st =
     (case merge_neurons trained_networks l 0 (neurons ly) st of
        Inl e \<Rightarrow> Inl e
      | Inr (ns', st1) \<Rightarrow>
          (case merge_layers trained_networks (Suc l) lys st1 of
             Inl e \<Rightarrow> Inl e
           | Inr (lys', st2) \<Rightarrow> Inr (ly\<lparr>neurons := ns'\<rparr> # lys', st2)))"

definition merge :: "network \<Rightarrow> network list \<Rightarrow> error + network" where
  "merge master trained_networks =
     (case merge_layers trained_networks 0 (layers master) (store master) of
        Inl e \<Rightarrow> Inl e
      | Inr (lys, st) \<Rightarrow> Inr (master\<lparr>layers := lys, store := st\<rparr>))"

text \<open>
  \<^verbatim>\<open>parallel_train\<close>: the workers, then the merge into the orchestrator's network.
  It returns nothing; the result here is the network and the trainer it leaves behind.
\<close>

definition parallel_train ::
  "forward \<Rightarrow> int \<Rightarrow> network \<Rightarrow> trainer \<Rightarrow> example list \<Rightarrow> int \<Rightarrow> bool \<Rightarrow> int option
     \<Rightarrow> (error + (network \<times> trainer)) option" where
  "parallel_train fwd cpu_count net tr training_examples n unsupervised num_processes =
     (case parallel_train_workers fwd cpu_count net tr training_examples n unsupervised
             num_processes of
        None \<Rightarrow> None
      | Some (Inl e) \<Rightarrow> Some (Inl e)
      | Some (Inr (master, tr', trained_networks)) \<Rightarrow>
          (case merge master trained_networks of
             Inl e \<Rightarrow> Some (Inl e)
           | Inr merged \<Rightarrow> Some (Inr (merged, tr'))))"

subsection \<open>The shape of a network\<close>

text \<open>
  The number of neurons of every layer, in forward order. It is not part of the source;
  the statements about \<^verbatim>\<open>rho_estimates\<close> are phrased with it.
\<close>

definition widths :: "network \<Rightarrow> nat list" where
  "widths net = map (\<lambda>l. length (neurons l)) (layers net)"

subsection \<open>Sample data for the worked examples\<close>

text \<open>
  A stand-in for the forward pass, used only where a statement below is evaluated on
  concrete data: it caches the input vector and the output \<open>3/4\<close> in every neuron.
  The network has one Logistic layer of one neuron, with the weights \<open>[1, 1]\<close>.
\<close>

definition sample_forward :: forward where
  "sample_forward net x =
     Some (net\<lparr>layers :=
             map (\<lambda>l. l\<lparr>neurons := map (\<lambda>n. n\<lparr>local_output := 3/4, inputs := x\<rparr>) (neurons l)\<rparr>)
               (layers net)\<rparr>)"

definition sample_network :: network where
  "sample_network =
     \<lparr>layers = [\<lparr>neurons = [\<lparr>weights = 0, threshold = 1, local_output = 0, inputs = []\<rparr>],
                 activation_function = Logistic\<rparr>],
      store = (\<lambda>_. [1, 1])\<rparr>"

text \<open>The sample network after one step on the example \<open>([1], [1, 2])\<close>.\<close>

definition sample_trained :: network where
  "sample_trained =
     \<lparr>layers = [\<lparr>neurons = [\<lparr>weights = 0, threshold = 9/8, local_output = 3/4,
                             inputs = [1, 2]\<rparr>],
                 activation_function = Logistic\<rparr>],
      store = (\<lambda>_. [1, 1])(0 := [9/8, 5/4])\<rparr>"

text \<open>A network whose second layer is wider than its first.\<close>

definition sample_wide_network :: network where
  "sample_wide_network =
     \<lparr>layers = [\<lparr>neurons = [\<lparr>weights = 0, threshold = 0, local_output = 0, inputs = []\<rparr>],
                 activation_function = Logistic\<rparr>,
                \<lparr>neurons = [\<lparr>weights = 1, threshold = 0, local_output = 0, inputs = []\<rparr>,
                            \<lparr>weights = 2, threshold = 0, local_output = 0, inputs = []\<rparr>],
                 activation_function = Logistic\<rparr>,
                \<lparr>neurons = [\<lparr>weights = 3, threshold = 0, local_output = 0, inputs = []\<rparr>],
                 activation_function = Logistic\<rparr>],
      store = (\<lambda>_. [1, 1])\<rparr>"


definition sample_trainer :: trainer where
  "sample_trainer = \<lparr>learning_rate = 1/2, momentum_coef = 0, iterations = None\<rparr>"

section \<open>Properties\<close>


subsection \<open>The steps of one neuron and one layer\<close>

lemma train_neuron_InrE:
  assumes "train_neuron lr u isOut af t nds nws j n p = Inr (n', p')"
  obtains delta ws where
    "neuron_delta isOut af t nds nws (heap p) j n = Inr delta"
    "update_weights lr delta 0 (inputs n) (heap p (weights n)) = Inr ws"
    "heap p' = (heap p)(weights n := ws)"
    "this_layer_deltas p' = this_layer_deltas p @ [delta]"
    "this_layer_weights p' = this_layer_weights p @ [weights n]"
    "weights n' = weights n" "local_output n' = local_output n" "inputs n' = inputs n"
  using assms
  by (auto simp: train_neuron_def Let_def split: sum.splits if_splits)

lemma train_neurons_length:
  "train_neurons lr u isOut af t nds nws j ns p = Inr (ns', p') \<Longrightarrow> length ns' = length ns"
  by (induction ns arbitrary: j p ns' p') (auto split: sum.splits prod.splits)










lemma train_neurons_ConsE:
  assumes "train_neurons lr u isOut af t nds nws j (n # ns) p = Inr (ns', p')"
  obtains n1 p1 ns1 where
    "train_neuron lr u isOut af t nds nws j n p = Inr (n1, p1)"
    "train_neurons lr u isOut af t nds nws (Suc j) ns p1 = Inr (ns1, p')"
    "ns' = n1 # ns1"
  using assms by (auto split: sum.splits prod.splits)







lemma train_neuron_threshold:
  assumes "train_neuron lr u isOut af t nds nws j n p = Inr (n', p')"
    and "neuron_delta isOut af t nds nws (heap p) j n = Inr delta"
  shows "threshold n' =
           (if u \<and> \<not> isOut
            then threshold n - lr * delta - lr * beta * (rho_estimates p' ! j - rho)
            else threshold n - lr * delta)"
    and "rho_estimates p' =
           (if u \<and> \<not> isOut
            then (rho_estimates p)[j := 0.999 * rho_estimates p ! j + 0.001 * local_output n]
            else rho_estimates p)"
    and "u \<and> \<not> isOut \<Longrightarrow> j < length (rho_estimates p)"
  using assms
  by (auto simp: train_neuron_def Let_def split: sum.splits if_splits)

lemma train_neurons_rho:
  "train_neurons lr u isOut af t nds nws j0 ns p = Inr (ns', p') \<Longrightarrow>
     length (rho_estimates p') = length (rho_estimates p) \<and>
     (if u \<and> \<not> isOut
      then j0 + length ns \<le> max j0 (length (rho_estimates p)) \<and>
           (\<forall>i<length (rho_estimates p). rho_estimates p' ! i =
              (if j0 \<le> i \<and> i < j0 + length ns
               then 0.999 * rho_estimates p ! i + 0.001 * local_output (ns ! (i - j0))
               else rho_estimates p ! i))
      else rho_estimates p' = rho_estimates p)"
proof (induction ns arbitrary: j0 p ns')
  case Nil
  then show ?case by simp
next
  case (Cons n ns)
  from Cons.prems(1) obtain n1 p1 ns1 where
    step: "train_neuron lr u isOut af t nds nws j0 n p = Inr (n1, p1)" and
    rest: "train_neurons lr u isOut af t nds nws (Suc j0) ns p1 = Inr (ns1, p')"
    by (rule train_neurons_ConsE)
  from step obtain delta where
    d: "neuron_delta isOut af t nds nws (heap p) j0 n = Inr delta"
    by (rule train_neuron_InrE)
  note r1 = train_neuron_threshold(2)[OF step d]
  note IH = Cons.IH[OF rest]
  show ?case
  proof (cases "u \<and> \<not> isOut")
    case False
    with r1 IH show ?thesis by auto
  next
    case True
    from train_neuron_threshold(3)[OF step d True] have lt: "j0 < length (rho_estimates p)" .
    from True r1 have r1': "rho_estimates p1 =
        (rho_estimates p)[j0 := 0.999 * rho_estimates p ! j0 + 0.001 * local_output n]"
      by simp
    from IH True r1' have
      len: "length (rho_estimates p') = length (rho_estimates p)" and
      bnd: "Suc j0 + length ns \<le> max (Suc j0) (length (rho_estimates p))" and
      nth: "\<And>i. i < length (rho_estimates p) \<Longrightarrow> rho_estimates p' ! i =
              (if Suc j0 \<le> i \<and> i < Suc j0 + length ns
               then 0.999 * rho_estimates p1 ! i + 0.001 * local_output (ns ! (i - Suc j0))
               else rho_estimates p1 ! i)"
      by simp_all
    have "rho_estimates p' ! i =
            (if j0 \<le> i \<and> i < j0 + length (n # ns)
             then 0.999 * rho_estimates p ! i + 0.001 * local_output ((n # ns) ! (i - j0))
             else rho_estimates p ! i)" if "i < length (rho_estimates p)" for i
    proof -
      consider "i < j0" | "i = j0" | "j0 < i" by linarith
      then show ?thesis
      proof cases
        case 1
        with nth[OF that] r1' show ?thesis by simp
      next
        case 2
        with nth[OF that] r1' lt show ?thesis by simp
      next
        case 3
        then have "(n # ns) ! (i - j0) = ns ! (i - Suc j0)"
          by (simp add: nth_Cons')
        with 3 nth[OF that] r1' show ?thesis by simp
      qed
    qed
    with len bnd lt True show ?thesis by simp
  qed
qed





subsection \<open>Parameter updates\<close>










subsection \<open>The attribute iterations\<close>

lemma train_sets_iterations:
  "train fwd tr net exs n u = Inr (net', tr') \<Longrightarrow> 0 < n \<and> tr' = tr\<lparr>iterations := Some (n - 1)\<rparr>"
  by (auto simp: train_def split: sum.splits if_splits)

lemma sample_train_example:
  "train_example sample_forward (1/2) False
     (\<lparr>layers = [\<lparr>neurons = [\<lparr>weights = 0, threshold = th, local_output = out, inputs = ins\<rparr>],
                 activation_function = Logistic\<rparr>],
       store = (\<lambda>_. [1, 1])(0 := [w0, w1])\<rparr>, []) ([1], [1, 2])
   = Inr (\<lparr>layers = [\<lparr>neurons = [\<lparr>weights = 0, threshold = th + 1/8, local_output = 3/4,
                                     inputs = [1, 2]\<rparr>],
                 activation_function = Logistic\<rparr>],
       store = (\<lambda>_. [1, 1])(0 := [w0 + 1/8, w1 + 1/4])\<rparr>, [])"
  by (simp add: train_example_def sample_forward_def train_neuron_def neuron_delta_def)

text \<open>
  Claim C4 says that \<open>train\<close> leaves the number \<open>n\<close> of passes in the attribute
  \<open>iterations\<close>. The source assigns the loop variable of \<open>range(iterations)\<close> after the
  loop, which is the index of the last pass: three passes over the sample data leave
  \<open>iterations = 2\<close>.
\<close>

theorem train_records_last_index:
  "train sample_forward sample_trainer sample_network [([1], [1, 2])] 3 False
     = Inr (\<lparr>layers = [\<lparr>neurons = [\<lparr>weights = 0, threshold = 11/8, local_output = 3/4,
                                     inputs = [1, 2]\<rparr>],
                 activation_function = Logistic\<rparr>],
             store = (\<lambda>_. [1, 1])(0 := [11/8, 7/4])\<rparr>,
            sample_trainer\<lparr>iterations := Some 2\<rparr>)"
proof -
  have s: "sample_network = \<lparr>layers = [\<lparr>neurons = [\<lparr>weights = 0, threshold = 1, local_output = 0, inputs = []\<rparr>],
                 activation_function = Logistic\<rparr>],
       store = (\<lambda>_. [1, 1])(0 := [1, 1])\<rparr>"
    by (simp add: sample_network_def fun_eq_iff)
  have n: "nat 3 = Suc (Suc (Suc 0))" by simp
  show ?thesis
    unfolding train_def s n
    by (simp add: init_rho_estimates_def sample_train_example sample_trainer_def)
qed


subsection \<open>The Logistic activation function\<close>

lemma DBL_MAX_ge_one: "1 \<le> DBL_MAX"
  by (simp add: DBL_MAX_def)

lemma math_exp_nonpos: "y \<le> 0 \<Longrightarrow> math_exp y = Inr (exp y)"
proof -
  assume "y \<le> 0"
  then have "exp y \<le> 1" by simp
  with DBL_MAX_ge_one have "\<not> exp y > DBL_MAX" by linarith
  then show ?thesis by (simp add: math_exp_def)
qed

lemma activate_nonneg:
  "0 \<le> x \<Longrightarrow> LogisticActivationFunction_activate x = 1 / (1 + exp (- x))"
  by (simp add: LogisticActivationFunction_activate_def math_exp_nonpos)

lemma exp_1000_large: "(10::real) ^ 13 < exp 1000"
proof -
  have "(2::real) \<le> exp 1"
    using exp_ge_add_one_self[of "1::real"] by simp
  then have "(2::real) ^ 1000 \<le> exp 1 ^ 1000"
    by (intro power_mono) simp_all
  also have "exp (1::real) ^ 1000 = exp 1000"
    using exp_of_nat_mult[of 1000 "1::real"] by simp
  finally have "(2::real) ^ 1000 \<le> exp 1000" .
  moreover have "(10::real) ^ 13 < 2 ^ 1000" by simp
  ultimately show ?thesis by linarith
qed

text \<open>
  Claim C7 says that \<open>activate\<close> returns \<open>1 - 1e-13\<close> at \<open>x = 1000\<close>. There
  \<open>math.exp\<close> is called on \<open>-1000\<close>, which does not overflow, so the handler and its
  upper bound are not reached: the result is \<open>1 / (1 + exp (-1000))\<close>, which lies above
  \<open>1 - 1e-13\<close> (and which double arithmetic rounds to \<open>1.0\<close>).
\<close>

theorem logistic_activate_large_input:
  "LogisticActivationFunction_activate 1000 = 1 / (1 + exp (- 1000)) \<and>
   0.9999999999999 < LogisticActivationFunction_activate 1000"
proof
  show eq: "LogisticActivationFunction_activate 1000 = 1 / (1 + exp (- 1000))"
    using activate_nonneg[of 1000] by simp
  have "exp (- 1000 :: real) = 1 / exp 1000"
    by (simp add: exp_minus inverse_eq_divide)
  also have "\<dots> < 1 / 10 ^ 13"
    using exp_1000_large by (intro divide_strict_left_mono) simp_all
  finally have small: "exp (- 1000 :: real) < 1 / 10 ^ 13" .
  have pos: "0 < exp (- 1000 :: real)" by simp
  have "0.9999999999999 * (1 + exp (- 1000 :: real)) < 1"
    using small by simp
  then have "0.9999999999999 < 1 / (1 + exp (- 1000 :: real))"
    using pos by (simp add: pos_less_divide_eq add_pos_pos)
  with eq show "0.9999999999999 < LogisticActivationFunction_activate 1000" by simp
qed

lemma exp_1000_overflows: "DBL_MAX < exp 1000"
proof -
  have "(5/2::real) \<le> exp 1"
    using exp_lower_Taylor_quadratic[of "1::real"] by simp
  then have "(5/2::real) ^ 1000 \<le> exp 1 ^ 1000"
    by (intro power_mono) simp_all
  also have "exp (1::real) ^ 1000 = exp 1000"
    using exp_of_nat_mult[of 1000 "1::real"] by simp
  finally have "(5/2::real) ^ 1000 \<le> exp 1000" .
  moreover have "(32::real) ^ 250 \<le> ((5/2) ^ 4) ^ 250"
    by (intro power_mono) (simp_all add: power_divide)
  moreover have "((5/2::real) ^ 4) ^ 250 = (5/2) ^ 1000"
    by (simp only: power_mult [symmetric]) simp
  moreover have "DBL_MAX < (32::real) ^ 250"
    by (simp add: DBL_MAX_def)
  ultimately show ?thesis by linarith
qed

lemma activate_minus_1000: "LogisticActivationFunction_activate (- 1000) = 0.0000000000001"
  using exp_1000_overflows by (simp add: LogisticActivationFunction_activate_def math_exp_def)


subsection \<open>parallel_train\<close>

lemma py_slice_all: "py_slice xs 0 (int (length xs)) = xs"
  by (simp add: py_slice_def)

lemma average_weights_Nil: "average_weights [] l j ijs a st = Inr st"
  by (induction ijs arbitrary: st) simp_all

lemma merge_neurons_Nil: "merge_neurons [] l j ns st = Inr (ns, st)"
  by (induction ns arbitrary: j) (simp_all add: average_weights_Nil)

lemma merge_layers_Nil: "merge_layers [] l lys st = Inr (lys, st)"
  by (induction lys arbitrary: l) (simp_all add: merge_neurons_Nil)

lemma merge_Nil: "merge master [] = Inr master"
  by (simp add: merge_def merge_layers_Nil)

lemma parallel_train_workers_single:
  assumes "training_examples \<noteq> []"
  shows "parallel_train_workers fwd cpu_count net tr training_examples n unsupervised (Some 1)
           = Some (case train fwd tr net training_examples n unsupervised of
                     Inl e \<Rightarrow> Inl e
                   | Inr (master, tr') \<Rightarrow> Inr (master, tr', []))"
proof -
  from assms have len: "0 < length training_examples" by simp
  then have np: "effective_num_processes cpu_count (Some 1) (length training_examples) = 1"
    by (simp add: effective_num_processes_def)
  have chunk: "chunk_amount (length training_examples) 1 = int (length training_examples)"
    by (simp add: chunk_amount_def)
  show ?thesis
    by (simp add: parallel_train_workers_def np chunk py_slice_all parallel_train_worker_def
          split: sum.splits)
qed

text \<open>
  Claim C5, amended. With \<open>num_processes = 1\<close> and a non-empty example list no process is
  spawned, the orchestrator trains the network it was given on the whole list, and the
  merge divides by one: \<open>parallel_train\<close> leaves the network and the trainer exactly as
  \<open>train\<close> does (and raises what \<open>train\<close> raises).
\<close>

theorem parallel_train_single_process:
  assumes "training_examples \<noteq> []"
  shows "effective_num_processes cpu_count (Some 1) (length training_examples) - 1 = 0 \<and>
         parallel_train fwd cpu_count net tr training_examples n unsupervised (Some 1)
           = Some (train fwd tr net training_examples n unsupervised)"
proof
  from assms show "effective_num_processes cpu_count (Some 1) (length training_examples) - 1 = 0"
    by (cases training_examples) (simp_all add: effective_num_processes_def)
  show "parallel_train fwd cpu_count net tr training_examples n unsupervised (Some 1)
           = Some (train fwd tr net training_examples n unsupervised)"
    by (simp add: parallel_train_def parallel_train_workers_single[OF assms] merge_Nil
          split: sum.splits)
qed

lemma sample_train_once:
  "train sample_forward sample_trainer sample_network [([1], [1, 2])] 1 False
     = Inr (sample_trained,
            sample_trainer\<lparr>iterations := Some 0\<rparr>)"
proof -
  have s: "sample_network = \<lparr>layers = [\<lparr>neurons = [\<lparr>weights = 0, threshold = 1, local_output = 0, inputs = []\<rparr>],
                 activation_function = Logistic\<rparr>],
       store = (\<lambda>_. [1, 1])(0 := [1, 1])\<rparr>"
    by (simp add: sample_network_def fun_eq_iff)
  show ?thesis
    unfolding train_def s
    by (simp add: init_rho_estimates_def sample_train_example sample_trainer_def
          sample_trained_def)
qed

theorem parallel_train_single_process_witness:
  "[([1], [1, 2])] \<noteq> ([] :: example list) \<and>
   parallel_train sample_forward 4 sample_network sample_trainer [([1], [1, 2])] 1 False (Some 1)
     = Some (Inr (sample_trained,
            sample_trainer\<lparr>iterations := Some 0\<rparr>))"
proof -
  have ne: "[([1], [1, 2])] \<noteq> ([] :: example list)" by simp
  from parallel_train_single_process[OF ne, of 4 sample_forward sample_network sample_trainer 1 False]
  show ?thesis by (simp add: sample_train_once)
qed

text \<open>
  Claim C5 as stated fails on the sample data: the weight ends at the trained value
  \<open>9/8\<close>, not at the average of the original \<open>1\<close> and the trained \<open>9/8\<close>.
\<close>

theorem parallel_train_single_process_not_average:
  "train sample_forward sample_trainer sample_network [([1], [1, 2])] 1 False
     = Inr (sample_trained,
            sample_trainer\<lparr>iterations := Some 0\<rparr>) \<and>
   parallel_train sample_forward 4 sample_network sample_trainer [([1], [1, 2])] 1 False (Some 1)
     = Some (Inr (sample_trained,
            sample_trainer\<lparr>iterations := Some 0\<rparr>)) \<and>
   store sample_trained 0 ! 0 \<noteq> (store sample_network 0 ! 0 + store sample_trained 0 ! 0) / 2"
proof -
  have ne: "[([1], [1, 2])] \<noteq> ([] :: example list)" by simp
  have "parallel_train sample_forward 4 sample_network sample_trainer [([1], [1, 2])] 1 False (Some 1)
     = Some (train sample_forward sample_trainer sample_network [([1], [1, 2])] 1 False)"
    by (simp add: parallel_train_def parallel_train_workers_single[OF ne] merge_Nil
          split: sum.splits)
  moreover
  have "store sample_trained 0 ! 0 \<noteq> (store sample_network 0 ! 0 + store sample_trained 0 ! 0) / 2"
    by (simp add: sample_network_def sample_trained_def)
  ultimately show ?thesis
    by (simp add: sample_train_once)
qed


lemma spawned_jobs_queue:
  "\<not> list_ex isl (map (\<lambda>p. parallel_train_worker fwd net tr (f p) n [] True u) ps) \<Longrightarrow>
     length (concat (map (\<lambda>r. case r of Inl _ \<Rightarrow> [] | Inr (_, _, q) \<Rightarrow> q)
               (map (\<lambda>p. parallel_train_worker fwd net tr (f p) n [] True u) ps))) = length ps \<and>
     (\<forall>i<length ps. \<exists>tr''. train fwd tr net (f (ps ! i)) n u =
        Inr (concat (map (\<lambda>r. case r of Inl _ \<Rightarrow> [] | Inr (_, _, q) \<Rightarrow> q)
               (map (\<lambda>p. parallel_train_worker fwd net tr (f p) n [] True u) ps)) ! i, tr''))"
proof (induction ps)
  case Nil
  then show ?case by simp
next
  case (Cons p ps)
  let ?job = "\<lambda>p. parallel_train_worker fwd net tr (f p) n [] True u"
  let ?q = "\<lambda>ps. concat (map (\<lambda>r. case r of Inl _ \<Rightarrow> [] | Inr (_, _, q) \<Rightarrow> q) (map ?job ps))"
  from Cons.prems have hd: "\<not> isl (?job p)" and tl: "\<not> list_ex isl (map ?job ps)"
    by simp_all
  from hd obtain tn tr1 where t: "train fwd tr net (f p) n u = Inr (tn, tr1)"
    by (auto simp: parallel_train_worker_def split: sum.splits)
  then have q: "?q (p # ps) = tn # ?q ps"
    by (simp add: parallel_train_worker_def)
  from Cons.IH[OF tl] have len: "length (?q ps) = length ps" and
    nth: "\<And>i. i < length ps \<Longrightarrow> \<exists>tr''. train fwd tr net (f (ps ! i)) n u = Inr (?q ps ! i, tr'')"
    by simp_all
  have "\<exists>tr''. train fwd tr net (f ((p # ps) ! i)) n u = Inr (?q (p # ps) ! i, tr'')"
    if "i < length (p # ps)" for i
  proof (cases i)
    case 0
    with t q show ?thesis by simp
  next
    case (Suc i')
    with that have "i' < length ps" by simp
    from nth[OF this] Suc q show ?thesis by simp
  qed
  with len q show ?case by simp
qed

text \<open>
  Claim C6, amended. When the workers are done and the merge starts, the orchestrator's
  network is the result of \<open>train\<close> on the network given to \<open>parallel_train\<close> and the last
  chunk: the in-thread worker trains the original network itself. Each of the
  \<open>num_processes - 1\<close> networks taken from the queue is the result of \<open>train\<close> on the
  network as it was at the call and the chunk of its process: a spawned worker trains a
  copy, and no worker sees the training of another.
\<close>

theorem parallel_train_workers_frame:
  assumes "parallel_train_workers fwd cpu_count net tr training_examples n u num_processes
             = Some (Inr (master, tr', trained_networks))"
  shows "let np = effective_num_processes cpu_count num_processes (length training_examples);
             chunk = chunk_amount (length training_examples) np
         in train fwd tr net
              (py_slice training_examples ((np - 1) * chunk) ((np - 1) * chunk + chunk)) n u
              = Inr (master, tr') \<and>
            length trained_networks = nat (np - 1) \<and>
            (\<forall>process_num<nat (np - 1). \<exists>tr''.
               train fwd tr net
                 (py_slice training_examples (int process_num * chunk)
                    (int process_num * chunk + chunk)) n u
               = Inr (trained_networks ! process_num, tr''))"
proof -
  define np where "np = effective_num_processes cpu_count num_processes (length training_examples)"
  define chunk where "chunk = chunk_amount (length training_examples) np"
  let ?f = "\<lambda>p::nat. py_slice training_examples (int p * chunk) (int p * chunk + chunk)"
  let ?jobs = "map (\<lambda>p. parallel_train_worker fwd net tr (?f p) n [] True u) [0..<nat (np - 1)]"
  let ?main = "parallel_train_worker fwd net tr
                 (py_slice training_examples ((np - 1) * chunk) ((np - 1) * chunk + chunk))
                 n [] False u"
  from assms have nz: "np \<noteq> 0"
    by (auto simp: parallel_train_workers_def np_def Let_def split: if_splits)
  with assms have body:
    "(case ?main of
        Inl e \<Rightarrow> Some (Inl e)
      | Inr (master, tr', _) \<Rightarrow>
          (if list_ex isl ?jobs then None
           else Some (Inr (master, tr',
                  concat (map (\<lambda>r. case r of Inl _ \<Rightarrow> [] | Inr (_, _, q) \<Rightarrow> q) ?jobs)))))
     = Some (Inr (master, tr', trained_networks))"
    by (simp add: parallel_train_workers_def np_def [symmetric] Let_def chunk_def [symmetric])
  then obtain q where main: "?main = Inr (master, tr', q)" and
    ok: "\<not> list_ex isl ?jobs" and
    tns: "trained_networks = concat (map (\<lambda>r. case r of Inl _ \<Rightarrow> [] | Inr (_, _, q) \<Rightarrow> q) ?jobs)"
    by (auto split: sum.splits prod.splits if_splits)
  from main have t: "train fwd tr net
       (py_slice training_examples ((np - 1) * chunk) ((np - 1) * chunk + chunk)) n u
     = Inr (master, tr')"
    by (auto simp: parallel_train_worker_def split: sum.splits)
  from spawned_jobs_queue[of fwd net tr ?f n u "[0..<nat (np - 1)]", OF ok] tns have
    "length trained_networks = nat (np - 1)"
    "\<forall>i<nat (np - 1). \<exists>tr''. train fwd tr net (?f i) n u = Inr (trained_networks ! i, tr'')"
    by simp_all
  with t show ?thesis
    by (simp add: np_def [symmetric] chunk_def [symmetric] Let_def)
qed


theorem parallel_train_workers_frame_witness:
  "parallel_train_workers sample_forward 4 sample_network sample_trainer
       [([1], [1, 2]), ([1], [1, 2])] 1 False (Some 2)
     = Some (Inr (sample_trained, sample_trainer\<lparr>iterations := Some 0\<rparr>, [sample_trained])) \<and>
   train sample_forward sample_trainer sample_network
       (py_slice [([1], [1, 2]), ([1], [1, 2])] 1 2) 1 False
     = Inr (sample_trained, sample_trainer\<lparr>iterations := Some 0\<rparr>) \<and>
   (\<exists>tr''. train sample_forward sample_trainer sample_network
       (py_slice [([1], [1, 2]), ([1], [1, 2])] 0 1) 1 False
     = Inr (sample_trained, tr''))"
proof -
  have np: "effective_num_processes 4 (Some 2) (length [([1::real], [1, 2::real]), ([1], [1, 2])]) = 2"
    by (simp add: effective_num_processes_def)
  have chunk: "chunk_amount (length [([1::real], [1, 2::real]), ([1], [1, 2])]) 2 = 1"
    by (simp add: chunk_amount_def)
  have sl: "py_slice [([1::real], [1, 2::real]), ([1], [1, 2])] 0 1 = [([1], [1, 2])]"
    "py_slice [([1::real], [1, 2::real]), ([1], [1, 2])] 1 2 = [([1], [1, 2])]"
    by (simp_all add: py_slice_def)
  have run: "parallel_train_workers sample_forward 4 sample_network sample_trainer
       [([1], [1, 2]), ([1], [1, 2])] 1 False (Some 2)
     = Some (Inr (sample_trained, sample_trainer\<lparr>iterations := Some 0\<rparr>, [sample_trained]))"
    unfolding parallel_train_workers_def np chunk Let_def
    by (simp add: sl parallel_train_worker_def sample_train_once)
  from parallel_train_workers_frame[OF run] run show ?thesis
    unfolding np chunk Let_def by simp
qed

text \<open>
  Claim C6 as stated fails on the sample data: at the start of the merge the
  orchestrator's network holds the trained weight \<open>9/8\<close>, not the weight \<open>1\<close> it had at
  the call.
\<close>

theorem in_thread_worker_mutates_original:
  "parallel_train_workers sample_forward 4 sample_network sample_trainer
       [([1], [1, 2])] 1 False (Some 1)
     = Some (Inr (sample_trained, sample_trainer\<lparr>iterations := Some 0\<rparr>, [])) \<and>
   store sample_trained 0 ! 0 \<noteq> store sample_network 0 ! 0"
proof -
  have ne: "[([1], [1, 2])] \<noteq> ([] :: example list)" by simp
  have "store sample_trained 0 ! 0 \<noteq> store sample_network 0 ! 0"
    by (simp add: sample_network_def sample_trained_def)
  then show ?thesis
    by (simp add: parallel_train_workers_single[OF ne] sample_train_once)
qed


subsection \<open>The index range of rho_estimates\<close>

lemma sum_value_loop_error:
  "sum_value_loop st j zs acc = Inl e \<Longrightarrow> e = IndexError ''weights''"
  by (induction zs arbitrary: acc) (auto split: if_splits)

lemma update_weights_error:
  "update_weights lr d ij xs ws = Inl e \<Longrightarrow> e = IndexError ''neuron.weights''"
  by (induction xs arbitrary: ij ws) (auto split: if_splits)

lemma neuron_delta_error:
  "neuron_delta isOut af t nds nws st j n = Inl e \<Longrightarrow> e \<noteq> IndexError ''rho_estimates''"
  by (auto simp: neuron_delta_def split: if_splits sum.splits dest: sum_value_loop_error)

lemma train_neuron_no_rho_error:
  "isOut \<or> \<not> u \<or> j < length (rho_estimates p) \<Longrightarrow>
     train_neuron lr u isOut af t nds nws j n p \<noteq> Inl (IndexError ''rho_estimates'')"
  by (auto simp: train_neuron_def Let_def split: sum.splits if_splits
        dest: neuron_delta_error update_weights_error)

lemma train_neurons_no_rho_error:
  "isOut \<or> \<not> u \<or> j0 + length ns \<le> length (rho_estimates p) \<Longrightarrow>
     train_neurons lr u isOut af t nds nws j0 ns p \<noteq> Inl (IndexError ''rho_estimates'')"
proof (induction ns arbitrary: j0 p)
  case Nil
  then show ?case by simp
next
  case (Cons n ns)
  from Cons.prems have here: "isOut \<or> \<not> u \<or> j0 < length (rho_estimates p)"
    by auto
  show ?case
  proof (cases "train_neuron lr u isOut af t nds nws j0 n p")
    case (Inl e)
    with train_neuron_no_rho_error[OF here, of lr af t nds nws n] show ?thesis by auto
  next
    case (Inr r)
    obtain n1 p1 where r: "r = (n1, p1)" by (cases r)
    from Inr r have "train_neurons lr u isOut af t nds nws j0 [n] p = Inr ([n1], p1)"
      by simp
    from train_neurons_rho[OF this]
    have "length (rho_estimates p1) = length (rho_estimates p)" by simp
    with Cons.prems have "isOut \<or> \<not> u \<or> Suc j0 + length ns \<le> length (rho_estimates p1)"
      by auto
    from Cons.IH[OF this] Inr r show ?thesis
      by (auto split: sum.splits)
  qed
qed

lemma train_neurons_wide_fails:
  "u \<Longrightarrow> length (rho_estimates p) < length ns \<Longrightarrow>
     \<exists>e. train_neurons lr u False af t nds nws 0 ns p = Inl e"
proof (cases "train_neurons lr u False af t nds nws 0 ns p")
  case (Inl e)
  then show ?thesis by blast
next
  case (Inr r)
  assume u: u and wide: "length (rho_estimates p) < length ns"
  obtain ns' p' where "r = (ns', p')" by (cases r)
  with Inr train_neurons_rho[of lr u False af t nds nws 0 ns p ns' p'] u
  have "length ns \<le> length (rho_estimates p)" by simp
  with wide show ?thesis by simp
qed

lemma backward_layers_shape:
  "backward_layers lr u t isOut nds nws ls st rhos = Inr (ls', st', rhos') \<Longrightarrow>
     map (\<lambda>l. length (neurons l)) ls' = map (\<lambda>l. length (neurons l)) ls \<and>
     length rhos' = length rhos"
proof (induction ls arbitrary: isOut nds nws st rhos ls')
  case Nil
  then show ?case by simp
next
  case (Cons l ls)
  let ?p = "\<lparr>heap = st, rho_estimates = rhos, this_layer_deltas = [], this_layer_weights = []\<rparr>"
  from Cons.prems obtain ns' p ls1 where
    lay: "train_neurons lr u isOut (activation_function l) t nds nws 0 (neurons l) ?p = Inr (ns', p)" and
    rest: "backward_layers lr u t False (this_layer_deltas p) (this_layer_weights p) ls
             (heap p) (rho_estimates p) = Inr (ls1, st', rhos')" and
    ls': "ls' = l\<lparr>neurons := ns'\<rparr> # ls1"
    by (auto split: sum.splits prod.splits)
  from train_neurons_length[OF lay] train_neurons_rho[OF lay] Cons.IH[OF rest] ls'
  show ?case by simp
qed

lemma backward_layers_no_rho_error:
  "\<forall>l\<in>set (if isOut then tl ls else ls). length (neurons l) \<le> length rhos \<Longrightarrow>
     backward_layers lr u t isOut nds nws ls st rhos \<noteq> Inl (IndexError ''rho_estimates'')"
proof (induction ls arbitrary: isOut nds nws st rhos)
  case Nil
  then show ?case by simp
next
  case (Cons l ls)
  let ?p = "\<lparr>heap = st, rho_estimates = rhos, this_layer_deltas = [], this_layer_weights = []\<rparr>"
  from Cons.prems have here: "isOut \<or> \<not> u \<or> 0 + length (neurons l) \<le> length (rho_estimates ?p)"
    and tl: "\<forall>l\<in>set ls. length (neurons l) \<le> length rhos"
    by (auto split: if_splits)
  show ?case
  proof (cases "train_neurons lr u isOut (activation_function l) t nds nws 0 (neurons l) ?p")
    case (Inl e)
    with train_neurons_no_rho_error[OF here, of lr "activation_function l" t nds nws]
    show ?thesis by auto
  next
    case (Inr r)
    obtain ns' p where r: "r = (ns', p)" by (cases r)
    from train_neurons_rho[OF Inr[unfolded r]]
    have "length (rho_estimates p) = length rhos" by simp
    with tl have "\<forall>l\<in>set (if False then tl ls else ls). length (neurons l) \<le> length (rho_estimates p)"
      by simp
    from Cons.IH[OF this] Inr r show ?thesis
      by (auto split: sum.splits)
  qed
qed

lemma backward_layers_wide_fails:
  "\<exists>l\<in>set (if isOut then tl ls else ls). length rhos < length (neurons l) \<Longrightarrow>
     \<exists>e. backward_layers lr True t isOut nds nws ls st rhos = Inl e"
proof (induction ls arbitrary: isOut nds nws st rhos)
  case Nil
  then show ?case by simp
next
  case (Cons l ls)
  let ?p = "\<lparr>heap = st, rho_estimates = rhos, this_layer_deltas = [], this_layer_weights = []\<rparr>"
  show ?case
  proof (cases "train_neurons lr True isOut (activation_function l) t nds nws 0 (neurons l) ?p")
    case (Inl e)
    then show ?thesis by simp
  next
    case (Inr r)
    obtain ns' p where r: "r = (ns', p)" by (cases r)
    from train_neurons_rho[OF Inr[unfolded r]]
    have len: "length (rho_estimates p) = length rhos" by simp
    have "\<exists>l\<in>set ls. length rhos < length (neurons l)"
    proof (cases "\<not> isOut \<and> length rhos < length (neurons l)")
      case True
      with train_neurons_wide_fails[of True ?p "neurons l" lr "activation_function l" t nds nws] Inr
      show ?thesis by simp
    next
      case False
      with Cons.prems show ?thesis by (auto split: if_splits)
    qed
    with len have "\<exists>l\<in>set (if False then tl ls else ls). length (rho_estimates p) < length (neurons l)"
      by simp
    from Cons.IH[OF this, of "this_layer_deltas p" "this_layer_weights p" "heap p"]
    obtain e where "backward_layers lr True t False (this_layer_deltas p) (this_layer_weights p) ls
                      (heap p) (rho_estimates p) = Inl e"
      by blast
    with Inr r show ?thesis by simp
  qed
qed


lemma tl_rev_butlast: "tl (rev xs) = rev (butlast xs)"
  by (induction xs rule: rev_induct) simp_all

lemma widths_butlast:
  "set (butlast (widths net)) = (\<lambda>l. length (neurons l)) ` set (butlast (layers net))"
  by (simp add: widths_def map_butlast [symmetric])

lemma train_example_shape:
  assumes keeps: "\<forall>net x net'. fwd net x = Some net' \<longrightarrow> widths net' = widths net"
    and run: "train_example fwd lr u s ex = Inr s'"
  shows "widths (fst s') = widths (fst s) \<and> length (snd s') = length (snd s)"
proof -
  from run obtain net1 ls st rhos where
    f: "fwd (fst s) (snd ex) = Some net1" and
    b: "backward_layers lr u (fst ex) True [] [] (rev (layers net1)) (store net1) (snd s)
          = Inr (ls, st, rhos)" and
    s': "s' = (net1\<lparr>layers := rev ls, store := st\<rparr>, rhos)"
    by (auto simp: train_example_def split: option.splits sum.splits)
  from keeps f have w: "widths net1 = widths (fst s)" by blast
  from backward_layers_shape[OF b] have
    "map (\<lambda>l. length (neurons l)) (rev ls) = map (\<lambda>l. length (neurons l)) (layers net1)"
    "length rhos = length (snd s)"
    by (simp_all add: rev_map [symmetric])
  with w s' show ?thesis by (simp add: widths_def)
qed

lemma train_example_no_rho_error:
  assumes keeps: "\<forall>net x net'. fwd net x = Some net' \<longrightarrow> widths net' = widths net"
    and narrow: "\<forall>w\<in>set (butlast (widths (fst s))). w \<le> length (snd s)"
  shows "train_example fwd lr u s ex \<noteq> Inl (IndexError ''rho_estimates'')"
proof (cases "fwd (fst s) (snd ex)")
  case None
  then show ?thesis by (simp add: train_example_def)
next
  case (Some net1)
  with keeps have "widths net1 = widths (fst s)" by blast
  with narrow have "\<forall>w\<in>set (butlast (widths net1)). w \<le> length (snd s)"
    by simp
  then have "\<forall>l\<in>set (butlast (layers net1)). length (neurons l) \<le> length (snd s)"
    unfolding widths_butlast by blast
  then have "\<forall>l\<in>set (if True then tl (rev (layers net1)) else rev (layers net1)).
               length (neurons l) \<le> length (snd s)"
    by (simp add: tl_rev_butlast)
  from backward_layers_no_rho_error[OF this, of lr u "fst ex" "[]" "[]" "store net1"] Some
  show ?thesis
    by (auto simp: train_example_def split: sum.splits)
qed

lemma train_example_wide_fails:
  assumes keeps: "\<forall>net x net'. fwd net x = Some net' \<longrightarrow> widths net' = widths net"
    and wide: "\<exists>w\<in>set (butlast (widths (fst s))). length (snd s) < w"
  shows "\<exists>e. train_example fwd lr True s ex = Inl e"
proof (cases "fwd (fst s) (snd ex)")
  case None
  then show ?thesis by (simp add: train_example_def)
next
  case (Some net1)
  with keeps have "widths net1 = widths (fst s)" by blast
  with wide have "\<exists>w\<in>set (butlast (widths net1)). length (snd s) < w"
    by simp
  then have "\<exists>l\<in>set (butlast (layers net1)). length (snd s) < length (neurons l)"
    unfolding widths_butlast by blast
  then have "\<exists>l\<in>set (if True then tl (rev (layers net1)) else rev (layers net1)).
               length (snd s) < length (neurons l)"
    by (simp add: tl_rev_butlast)
  from backward_layers_wide_fails[OF this, of lr "fst ex" "[]" "[]" "store net1"]
  obtain e where "backward_layers lr True (fst ex) True [] [] (rev (layers net1)) (store net1) (snd s)
                    = Inl e"
    by blast
  with Some show ?thesis by (simp add: train_example_def)
qed

lemma train_examples_no_rho_error:
  assumes keeps: "\<forall>net x net'. fwd net x = Some net' \<longrightarrow> widths net' = widths net"
  shows "\<forall>w\<in>set (butlast (widths (fst s))). w \<le> length (snd s) \<Longrightarrow>
     train_examples fwd lr u exs s \<noteq> Inl (IndexError ''rho_estimates'') \<and>
     (\<forall>s'. train_examples fwd lr u exs s = Inr s' \<longrightarrow>
        widths (fst s') = widths (fst s) \<and> length (snd s') = length (snd s))"
proof (induction exs arbitrary: s)
  case Nil
  then show ?case by simp
next
  case (Cons ex exs)
  show ?case
  proof (cases "train_example fwd lr u s ex")
    case (Inl e)
    with train_example_no_rho_error[OF keeps Cons.prems, of lr u ex] show ?thesis by auto
  next
    case (Inr s1)
    from train_example_shape[OF keeps Inr] have
      same: "widths (fst s1) = widths (fst s)" "length (snd s1) = length (snd s)"
      by simp_all
    with Cons.prems have "\<forall>w\<in>set (butlast (widths (fst s1))). w \<le> length (snd s1)"
      by simp
    from Cons.IH[OF this] Inr same show ?thesis by simp
  qed
qed

lemma train_iterations_no_rho_error:
  assumes keeps: "\<forall>net x net'. fwd net x = Some net' \<longrightarrow> widths net' = widths net"
  shows "\<forall>w\<in>set (butlast (widths (fst s))). w \<le> length (snd s) \<Longrightarrow>
     train_iterations fwd lr u exs k s \<noteq> Inl (IndexError ''rho_estimates'')"
proof (induction k arbitrary: s)
  case 0
  then show ?case by simp
next
  case (Suc k)
  note ex = train_examples_no_rho_error[OF keeps Suc.prems, of lr u exs]
  show ?case
  proof (cases "train_examples fwd lr u exs s")
    case (Inl e)
    with ex show ?thesis by auto
  next
    case (Inr s1)
    with ex Suc.prems have "\<forall>w\<in>set (butlast (widths (fst s1))). w \<le> length (snd s1)"
      by simp
    from Suc.IH[OF this] Inr show ?thesis by simp
  qed
qed

lemma train_no_rho_error:
  assumes keeps: "\<forall>net x net'. fwd net x = Some net' \<longrightarrow> widths net' = widths net"
    and narrow: "\<forall>w\<in>set (butlast (widths net)). w \<le> length (neurons (layers net ! 0))"
  shows "train fwd tr net exs n True \<noteq> Inl (IndexError ''rho_estimates'')"
proof (cases "0 < length (layers net)")
  case False
  then show ?thesis by (simp add: train_def init_rho_estimates_def)
next
  case True
  let ?rhos = "replicate (length (neurons (layers net ! 0))) (0::real)"
  from narrow have "\<forall>w\<in>set (butlast (widths (fst (net, ?rhos)))). w \<le> length (snd (net, ?rhos))"
    by simp
  from train_iterations_no_rho_error[OF keeps this, of "learning_rate tr" True exs "nat n"] True
  show ?thesis
    by (auto simp: train_def init_rho_estimates_def split: sum.splits)
qed

lemma train_wide_fails:
  assumes keeps: "\<forall>net x net'. fwd net x = Some net' \<longrightarrow> widths net' = widths net"
    and wide: "\<exists>w\<in>set (butlast (widths net)). length (neurons (layers net ! 0)) < w"
    and n: "0 < n" and exs: "exs \<noteq> []"
  shows "\<exists>e. train fwd tr net exs n True = Inl e"
proof -
  from wide have lay: "0 < length (layers net)"
    by (auto simp: widths_def)
  let ?rhos = "replicate (length (neurons (layers net ! 0))) (0::real)"
  from exs obtain ex exs' where e: "exs = ex # exs'" by (cases exs) auto
  from n obtain k where k: "nat n = Suc k" by (cases "nat n") auto
  from wide have "\<exists>w\<in>set (butlast (widths (fst (net, ?rhos)))). length (snd (net, ?rhos)) < w"
    by simp
  from train_example_wide_fails[OF keeps this, of "learning_rate tr" ex]
  obtain err where "train_example fwd (learning_rate tr) True (net, ?rhos) ex = Inl err"
    by blast
  with lay e k show ?thesis
    by (simp add: train_def init_rho_estimates_def)
qed


lemma sim_neuron:
  assumes sup: "train_neuron lr False isOut af t nds nws j n p = Inr (n', p')"
    and eq: "heap q = heap p" "this_layer_deltas q = this_layer_deltas p"
      "this_layer_weights q = this_layer_weights p"
  shows "if isOut \<or> j < length (rho_estimates q)
         then \<exists>n'' q'. train_neuron lr True isOut af t nds nws j n q = Inr (n'', q') \<and>
                heap q' = heap p' \<and> this_layer_deltas q' = this_layer_deltas p' \<and>
                this_layer_weights q' = this_layer_weights p' \<and>
                length (rho_estimates q') = length (rho_estimates q)
         else train_neuron lr True isOut af t nds nws j n q = Inl (IndexError ''rho_estimates'')"
  using sup eq
  by (auto simp: train_neuron_def Let_def split: sum.splits)

lemma sim_neurons:
  assumes "train_neurons lr False isOut af t nds nws j0 ns p = Inr (ns', p')"
    and "heap q = heap p" "this_layer_deltas q = this_layer_deltas p"
      "this_layer_weights q = this_layer_weights p"
  shows "if isOut \<or> ns = [] \<or> j0 + length ns \<le> length (rho_estimates q)
         then \<exists>ns'' q'. train_neurons lr True isOut af t nds nws j0 ns q = Inr (ns'', q') \<and>
                heap q' = heap p' \<and> this_layer_deltas q' = this_layer_deltas p' \<and>
                this_layer_weights q' = this_layer_weights p' \<and>
                length (rho_estimates q') = length (rho_estimates q)
         else train_neurons lr True isOut af t nds nws j0 ns q = Inl (IndexError ''rho_estimates'')"
  using assms
proof (induction ns arbitrary: j0 p q ns')
  case Nil
  then show ?case by simp
next
  case (Cons n ns)
  from Cons.prems(1) obtain n1 p1 ns1 where
    step: "train_neuron lr False isOut af t nds nws j0 n p = Inr (n1, p1)" and
    rest: "train_neurons lr False isOut af t nds nws (Suc j0) ns p1 = Inr (ns1, p')"
    by (rule train_neurons_ConsE)
  note one = sim_neuron[OF step Cons.prems(2-4)]
  show ?case
  proof (cases "isOut \<or> j0 < length (rho_estimates q)")
    case False
    with one show ?thesis by simp
  next
    case True
    with one obtain n2 q1 where
      step': "train_neuron lr True isOut af t nds nws j0 n q = Inr (n2, q1)" and
      eq1: "heap q1 = heap p1" "this_layer_deltas q1 = this_layer_deltas p1"
        "this_layer_weights q1 = this_layer_weights p1" and
      len1: "length (rho_estimates q1) = length (rho_estimates q)"
      by auto
    note IH = Cons.IH[OF rest eq1]
    show ?thesis
    proof (cases "isOut \<or> ns = [] \<or> Suc j0 + length ns \<le> length (rho_estimates q1)")
      case ok: True
      with IH obtain ns2 q' where
        "train_neurons lr True isOut af t nds nws (Suc j0) ns q1 = Inr (ns2, q')"
        "heap q' = heap p'" "this_layer_deltas q' = this_layer_deltas p'"
        "this_layer_weights q' = this_layer_weights p'"
        "length (rho_estimates q') = length (rho_estimates q1)"
        by auto
      moreover from ok True len1
      have "isOut \<or> n # ns = [] \<or> j0 + length (n # ns) \<le> length (rho_estimates q)"
        by auto
      ultimately show ?thesis using step' len1 by simp
    next
      case bad: False
      with IH have "train_neurons lr True isOut af t nds nws (Suc j0) ns q1
                      = Inl (IndexError ''rho_estimates'')"
        by simp
      moreover from bad len1
      have "\<not> (isOut \<or> n # ns = [] \<or> j0 + length (n # ns) \<le> length (rho_estimates q))"
        by auto
      ultimately show ?thesis using step' by simp
    qed
  qed
qed

lemma sim_layers:
  assumes "backward_layers lr False t isOut nds nws ls st rhos0 = Inr (ls0, st0, rhos0')"
  shows "if \<exists>l\<in>set (if isOut then tl ls else ls). length rhos < length (neurons l)
         then backward_layers lr True t isOut nds nws ls st rhos = Inl (IndexError ''rho_estimates'')
         else \<exists>ls' rhos'. backward_layers lr True t isOut nds nws ls st rhos = Inr (ls', st0, rhos')"
  using assms
proof (induction ls arbitrary: isOut nds nws st rhos rhos0 ls0)
  case Nil
  then show ?case by simp
next
  case (Cons l ls)
  let ?p = "\<lparr>heap = st, rho_estimates = rhos0, this_layer_deltas = [], this_layer_weights = []\<rparr>"
  let ?q = "\<lparr>heap = st, rho_estimates = rhos, this_layer_deltas = [], this_layer_weights = []\<rparr>"
  from Cons.prems obtain ns' p ls1 where
    lay: "train_neurons lr False isOut (activation_function l) t nds nws 0 (neurons l) ?p
            = Inr (ns', p)" and
    rest: "backward_layers lr False t False (this_layer_deltas p) (this_layer_weights p) ls
             (heap p) (rho_estimates p) = Inr (ls1, st0, rhos0')"
    by (auto split: sum.splits prod.splits)
  have eq: "heap ?q = heap ?p" "this_layer_deltas ?q = this_layer_deltas ?p"
    "this_layer_weights ?q = this_layer_weights ?p"
    by simp_all
  note one = sim_neurons[OF lay eq]
  show ?case
  proof (cases "isOut \<or> length (neurons l) \<le> length rhos")
    case False
    with one have "train_neurons lr True isOut (activation_function l) t nds nws 0 (neurons l) ?q
                     = Inl (IndexError ''rho_estimates'')"
      by (auto split: if_splits)
    with False show ?thesis by auto
  next
    case True
    with one obtain ns2 q where
      lay': "train_neurons lr True isOut (activation_function l) t nds nws 0 (neurons l) ?q
               = Inr (ns2, q)" and
      eq1: "heap q = heap p" "this_layer_deltas q = this_layer_deltas p"
        "this_layer_weights q = this_layer_weights p" and
      len: "length (rho_estimates q) = length rhos"
      by (auto split: if_splits)
    from Cons.IH[OF rest, of "rho_estimates q"] have IH:
      "if \<exists>l\<in>set ls. length rhos < length (neurons l)
       then backward_layers lr True t False (this_layer_deltas p) (this_layer_weights p) ls
              (heap p) (rho_estimates q) = Inl (IndexError ''rho_estimates'')
       else \<exists>ls' rhos'. backward_layers lr True t False (this_layer_deltas p)
              (this_layer_weights p) ls (heap p) (rho_estimates q) = Inr (ls', st0, rhos')"
      by (simp add: len)
    have set: "(\<exists>l'\<in>set (if isOut then tl (l # ls) else l # ls). length rhos < length (neurons l'))
                \<longleftrightarrow> (\<exists>l'\<in>set ls. length rhos < length (neurons l'))"
      using True by auto
    show ?thesis
      unfolding set using IH lay' eq1 by (auto split: if_splits)
  qed
qed

lemma train_wide_rho_error:
  assumes keeps: "\<forall>net x net'. fwd net x = Some net' \<longrightarrow> widths net' = widths net"
    and wide: "\<exists>w\<in>set (butlast (widths net)). length (neurons (layers net ! 0)) < w"
    and n: "0 < n" and exs: "exs \<noteq> []"
    and sup: "train_example fwd (learning_rate tr) False (net, []) (hd exs) = Inr s1"
  shows "train fwd tr net exs n True = Inl (IndexError ''rho_estimates'')"
proof -
  from wide have lay: "0 < length (layers net)"
    by (auto simp: widths_def)
  let ?rhos = "replicate (length (neurons (layers net ! 0))) (0::real)"
  from exs obtain ex exs' where e: "exs = ex # exs'" by (cases exs) auto
  from n obtain k where k: "nat n = Suc k" by (cases "nat n") auto
  from sup e obtain net1 ls st rhos where
    f: "fwd net (snd ex) = Some net1" and
    b: "backward_layers (learning_rate tr) False (fst ex) True [] [] (rev (layers net1))
          (store net1) [] = Inr (ls, st, rhos)"
    by (auto simp: train_example_def split: option.splits sum.splits)
  from keeps f have "widths net1 = widths net" by blast
  with wide have "\<exists>w\<in>set (butlast (widths net1)). length ?rhos < w"
    by simp
  then have "\<exists>l\<in>set (butlast (layers net1)). length ?rhos < length (neurons l)"
    unfolding widths_butlast by blast
  then have "\<exists>l\<in>set (if True then tl (rev (layers net1)) else rev (layers net1)).
               length ?rhos < length (neurons l)"
    by (simp add: tl_rev_butlast)
  with sim_layers[OF b, of ?rhos]
  have "backward_layers (learning_rate tr) True (fst ex) True [] [] (rev (layers net1))
          (store net1) ?rhos = Inl (IndexError ''rho_estimates'')"
    by simp
  with f have "train_example fwd (learning_rate tr) True (net, ?rhos) ex
                 = Inl (IndexError ''rho_estimates'')"
    by (simp add: train_example_def)
  with lay e k show ?thesis
    by (simp add: train_def init_rho_estimates_def)
qed


text \<open>
  Claim C10. Let the forward pass keep the number of neurons of every layer, and let
  \<open>train\<close> run in the unsupervised mode, where \<open>rho_estimates\<close> has one entry per neuron
  of the first layer. If no layer before the output layer has more neurons than the first
  layer, no access \<open>rho_estimates[j]\<close> is out of range. If such a layer has more, a call
  with at least one pass over at least one example fails; and when the first example
  passes without the sparsity update, so that nothing else is wrong with it, the call
  fails with the index error of \<open>rho_estimates\<close>.
\<close>

theorem rho_estimates_index_range:
  assumes "\<forall>net x net'. fwd net x = Some net' \<longrightarrow> widths net' = widths net"
  shows "((\<forall>w\<in>set (butlast (widths net)). w \<le> length (neurons (layers net ! 0))) \<longrightarrow>
            train fwd tr net exs n True \<noteq> Inl (IndexError ''rho_estimates'')) \<and>
         ((\<exists>w\<in>set (butlast (widths net)). length (neurons (layers net ! 0)) < w) \<and>
            0 < n \<and> exs \<noteq> [] \<longrightarrow>
            (\<exists>e. train fwd tr net exs n True = Inl e) \<and>
            (\<forall>s1. train_example fwd (learning_rate tr) False (net, []) (hd exs) = Inr s1 \<longrightarrow>
                train fwd tr net exs n True = Inl (IndexError ''rho_estimates'')))"
  using train_no_rho_error[OF assms] train_wide_fails[OF assms] train_wide_rho_error[OF assms]
  by blast

lemma sample_forward_widths: "sample_forward net x = Some net' \<Longrightarrow> widths net' = widths net"
  by (auto simp: sample_forward_def widths_def)

theorem rho_estimates_index_range_witness:
  "train sample_forward sample_trainer sample_network [([1], [1, 2])] 1 True
     \<noteq> Inl (IndexError ''rho_estimates'') \<and>
   widths sample_wide_network = [1, 2, 1] \<and>
   train sample_forward sample_trainer sample_wide_network [([1], [1])] 1 True
     = Inl (IndexError ''rho_estimates'')"
proof -
  have keeps: "\<forall>net x net'. sample_forward net x = Some net' \<longrightarrow> widths net' = widths net"
    using sample_forward_widths by blast
  have narrow: "\<forall>w\<in>set (butlast (widths sample_network)).
                  w \<le> length (neurons (layers sample_network ! 0))"
    by (simp add: widths_def sample_network_def)
  have w: "widths sample_wide_network = [1, 2, 1]"
    by (simp add: widths_def sample_wide_network_def)
  have wide: "\<exists>w\<in>set (butlast (widths sample_wide_network)).
                length (neurons (layers sample_wide_network ! 0)) < w"
    unfolding w by (simp add: sample_wide_network_def)
  obtain s1 where sup:
    "train_example sample_forward (learning_rate sample_trainer) False (sample_wide_network, [])
       (hd [([1], [1])]) = Inr s1"
    by (simp add: train_example_def sample_forward_def sample_wide_network_def sample_trainer_def
          train_neuron_def neuron_delta_def)
  from rho_estimates_index_range[OF keeps, of sample_network sample_trainer "[([1], [1, 2])]" 1]
    narrow
  have "train sample_forward sample_trainer sample_network [([1], [1, 2])] 1 True
          \<noteq> Inl (IndexError ''rho_estimates'')"
    by blast
  moreover
  from rho_estimates_index_range[OF keeps, of sample_wide_network sample_trainer "[([1], [1])]" 1]
    wide sup
  have "train sample_forward sample_trainer sample_wide_network [([1], [1])] 1 True
          = Inl (IndexError ''rho_estimates'')"
    by simp
  ultimately show ?thesis using w by simp
qed


subsection \<open>The delta of a hidden neuron in a training step\<close>











lemma train_examples_step:
  "train_examples fwd lr u (exs1 @ ex # exs2) s0 = Inr sN \<Longrightarrow>
     \<exists>s s'. train_examples fwd lr u exs1 s0 = Inr s \<and> train_example fwd lr u s ex = Inr s' \<and>
            train_examples fwd lr u exs2 s' = Inr sN"
  by (induction exs1 arbitrary: s0) (auto split: sum.splits)


lemma sample_two_layer_output_walk:
  "train_neurons (1/2) False True Logistic [1] [] [] 0
     [\<lparr>weights = 0, threshold = 0, local_output = 3/4, inputs = [1, 2]\<rparr>]
     \<lparr>heap = (\<lambda>_. [1, 1]), rho_estimates = [], this_layer_deltas = [], this_layer_weights = []\<rparr>
   = Inr ([\<lparr>weights = 0, threshold = 1/8, local_output = 3/4, inputs = [1, 2]\<rparr>],
          \<lparr>heap = (\<lambda>_. [1, 1])(0 := [9/8, 5/4]), rho_estimates = [],
           this_layer_deltas = [- 1/4], this_layer_weights = [0]\<rparr>)"
  by (simp add: train_neuron_def neuron_delta_def)





end
